theory Spec2Isabelle
  imports Main "HOL-Library.Word" "HOL-Library.AList"
begin

unbundle bit_operations_syntax

section \<open>Text\<close>

text \<open>
  Go text is modelled as \<open>string\<close>, one \<open>char\<close> per code point, which covers the
  code points U+0000 to U+00FF (all of ASCII, where console names and command lines
  live). On that range \<open>unicode.IsSpace\<close> and \<open>unicode.ToLower\<close> are the closed
  formulas below, \<open>len([]rune(s))\<close> is \<open>length s\<close>, and slicing off a prefix is
  \<open>drop\<close>.
\<close>

definition IsSpace :: "char \<Rightarrow> bool" where
  "IsSpace c = (let r = (of_char c :: nat) in (9 \<le> r \<and> r \<le> 13) \<or> r = 32 \<or> r = 133 \<or> r = 160)"

definition ToLower_rune :: "char \<Rightarrow> char" where
  "ToLower_rune c =
     (let r = (of_char c :: nat) in
      if (65 \<le> r \<and> r \<le> 90) \<or> (192 \<le> r \<and> r \<le> 214) \<or> (216 \<le> r \<and> r \<le> 222)
      then char_of (r + 32) else c)"

definition ToLower :: "string \<Rightarrow> string" where
  "ToLower s = map ToLower_rune s"

definition TrimSpace :: "string \<Rightarrow> string" where
  "TrimSpace s = rev (dropWhile IsSpace (rev (dropWhile IsSpace s)))"

text \<open>
  \<open>strings.Fields\<close>: the maximal runs of non-space characters, in order. \<open>tok\<close> is
  the field being read.
\<close>

fun fields_from :: "string \<Rightarrow> string \<Rightarrow> string list" where
  "fields_from [] tok = (if tok = [] then [] else [tok])"
| "fields_from (c # s) tok =
     (if IsSpace c then (if tok = [] then fields_from s [] else tok # fields_from s [])
      else fields_from s (tok @ [c]))"

definition Fields :: "string \<Rightarrow> string list" where
  "Fields s = fields_from s []"

text \<open>\<open>strings.Contains\<close>: \<open>sub\<close> occurs in \<open>s\<close> as a contiguous piece.\<close>

fun Contains :: "string \<Rightarrow> string \<Rightarrow> bool" where
  "Contains [] sub = (sub = [])"
| "Contains (c # s) sub = (take (length sub) (c # s) = sub \<or> Contains s sub)"

subsection \<open>Decimal integers\<close>

text \<open>
  \<open>strconv.Atoi\<close> on a 64-bit platform: an optional sign, then one or more decimal
  digits; a value outside the range of \<open>int\<close> is an error. \<open>None\<close> is the error.
\<close>

definition isDigit :: "char \<Rightarrow> bool" where
  "isDigit c = (48 \<le> (of_char c :: nat) \<and> (of_char c :: nat) \<le> 57)"

definition digitVal :: "char \<Rightarrow> nat" where
  "digitVal c = of_char c - 48"

definition parseDigits :: "string \<Rightarrow> nat option" where
  "parseDigits s =
     (if s = [] \<or> \<not> list_all isDigit s then None
      else Some (foldl (\<lambda>a c. 10 * a + digitVal c) 0 s))"

definition Atoi :: "string \<Rightarrow> 64 word option" where
  "Atoi s =
     (let (neg, ds) =
        (case s of
           [] \<Rightarrow> (False, [])
         | c # r \<Rightarrow> if c = CHR ''-'' then (True, r)
                    else if c = CHR ''+'' then (False, r) else (False, s))
      in case parseDigits ds of
           None \<Rightarrow> None
         | Some n \<Rightarrow>
             (let i = (if neg then - int n else int n)
              in if - (2 ^ 63) \<le> i \<and> i < 2 ^ 63 then Some (word_of_int i) else None))"




section \<open>Values held by a variable\<close>

text \<open>
  \<open>reflect.Kind\<close>, with the kinds the library tells apart; every other kind is
  \<open>KOther\<close>.
\<close>

datatype Kind = KBool | KInt | KFloat64 | KString | KOther

text \<open>
  An \<open>interface{}\<close> value: \<open>nil\<close>, or a value of one of the predeclared types
  \<open>bool\<close>, \<open>int\<close> (64 bits), \<open>float64\<close> (its IEEE 754 bit pattern) and \<open>string\<close>.
\<close>

datatype iface = Nil | GoBool bool | GoInt "64 word" | GoFloat64 "64 word" | GoString string

text \<open>\<open>reflect.TypeOf(v).Kind()\<close>; \<open>TypeOf(nil)\<close> is nil, and \<open>Kind\<close> on it panics.\<close>

fun typeKind :: "iface \<Rightarrow> Kind option" where
  "typeKind Nil = None"
| "typeKind (GoBool _) = Some KBool"
| "typeKind (GoInt _) = Some KInt"
| "typeKind (GoFloat64 _) = Some KFloat64"
| "typeKind (GoString _) = Some KString"

text \<open>
  Go's \<open>==\<close> on \<open>float64\<close>, read off the bit patterns: a NaN equals nothing, the two
  zeros are equal, otherwise the patterns must agree.
\<close>

definition f64_isNaN :: "64 word \<Rightarrow> bool" where
  "f64_isNaN w = (w AND 0x7FF0000000000000 = 0x7FF0000000000000 \<and> w AND 0x000FFFFFFFFFFFFF \<noteq> 0)"

definition f64_eq :: "64 word \<Rightarrow> 64 word \<Rightarrow> bool" where
  "f64_eq a b =
     (\<not> f64_isNaN a \<and> \<not> f64_isNaN b \<and>
      (a = b \<or> (a AND 0x7FFFFFFFFFFFFFFF = 0 \<and> b AND 0x7FFFFFFFFFFFFFFF = 0)))"

text \<open>Go's \<open>==\<close> on two \<open>interface{}\<close> values: same dynamic type and equal values.\<close>

fun go_eq :: "iface \<Rightarrow> iface \<Rightarrow> bool" where
  "go_eq (GoFloat64 a) (GoFloat64 b) = f64_eq a b"
| "go_eq a b = (a = b)"

section \<open>Errors and panics\<close>

datatype error =
    BadStringConversion string Kind
  | VarNotFound string
  | VarBadType string Kind
  | TypeMismatch iface string Kind
  | UnsupportedType Kind
  | NilValue
  | OpenFailed string
  | WriteFailed string

datatype panic = PanicError error | NilDereference | SliceBounds

section \<open>ConVar\<close>

text \<open>
  The fields of \<open>ConVar\<close>; \<open>valCur\<close> is the content of the atomic cell \<open>value\<close>.
  The back pointer \<open>console\<close> and the callback \<open>valSet\<close> are host data: the callback is
  code of the host, so \<open>write\<close> and \<open>exec\<close> record each invocation as an event;
  \<open>exec_run\<close> below applies what the callbacks do to the console.
\<close>

record ConVar =
  varName :: string
  varType :: Kind
  varDesc :: string
  valCur :: iface
  valDefault :: iface
  isFunc :: bool

text \<open>
  One invocation \<open>cv.valSet(cv.console, old, new)\<close>: the variable, the two arguments,
  and the value the variable holds when the callback starts.
\<close>

record event =
  cb_var :: string
  cb_old :: iface
  cb_new :: iface
  cb_seen :: iface

definition valSet :: "ConVar \<Rightarrow> iface \<Rightarrow> iface \<Rightarrow> event" where
  "valSet cv oldVal newVal =
     \<lparr>cb_var = varName cv, cb_old = oldVal, cb_new = newVal, cb_seen = valCur cv\<rparr>"

definition NewConVar :: "string \<Rightarrow> Kind \<Rightarrow> bool \<Rightarrow> string \<Rightarrow> iface \<Rightarrow> panic + ConVar" where
  "NewConVar name vt isF desc dflt =
     (case typeKind dflt of
        None \<Rightarrow> Inl NilDereference
      | Some k \<Rightarrow>
          if vt \<noteq> k then Inl (PanicError (TypeMismatch dflt (ToLower name) vt))
          else if \<not> (vt = KInt \<or> vt = KFloat64 \<or> vt = KString)
          then Inl (PanicError (UnsupportedType vt))
          else Inr \<lparr>varName = ToLower name, varType = vt, varDesc = desc,
                    valCur = dflt, valDefault = dflt, isFunc = isF\<rparr>)"

text \<open>
  \<open>write\<close> (here \<open>cv_write\<close>) returns the error (\<open>None\<close> is \<open>nil\<close>), the variable after the call and the
  callback invocations it made, in order.
\<close>

definition cv_write :: "ConVar \<Rightarrow> Kind \<Rightarrow> iface \<Rightarrow> int \<Rightarrow> error option \<times> ConVar \<times> event list" where
  "cv_write cv vt v argc =
     (if v = Nil then (Some NilValue, cv, [])
      else if Some vt \<noteq> typeKind v then (Some (TypeMismatch v (varName cv) vt), cv, [])
      else if varType cv \<noteq> vt then (Some (VarBadType (varName cv) vt), cv, [])
      else if isFunc cv then (None, cv, [valSet cv (valDefault cv) v])
      else if argc < 2 then (None, cv, [])
      else
        (let oldVal = valCur cv in
         if go_eq oldVal v then (None, cv, [])
         else (let cv' = cv\<lparr>valCur := v\<rparr> in (None, cv', [valSet cv' oldVal v]))))"

definition SetBool :: "ConVar \<Rightarrow> bool \<Rightarrow> error option \<times> ConVar \<times> event list" where
  "SetBool cv b = (if b then cv_write cv KInt (GoInt 1) 2 else cv_write cv KInt (GoInt 0) 2)"

definition SetInt :: "ConVar \<Rightarrow> 64 word \<Rightarrow> error option \<times> ConVar \<times> event list" where
  "SetInt cv i = cv_write cv KInt (GoInt i) 2"

definition SetFloat64 :: "ConVar \<Rightarrow> 64 word \<Rightarrow> error option \<times> ConVar \<times> event list" where
  "SetFloat64 cv f = cv_write cv KFloat64 (GoFloat64 f) 2"

definition SetString :: "ConVar \<Rightarrow> string \<Rightarrow> error option \<times> ConVar \<times> event list" where
  "SetString cv s = cv_write cv KString (GoString s) 2"

definition Reset :: "ConVar \<Rightarrow> ConVar" where
  "Reset cv = cv\<lparr>valCur := valDefault cv\<rparr>"

section \<open>Console\<close>

text \<open>
  \<open>variables\<close> is a Go map; the association list fixes one order in which the map
  is iterated, and the theorems hold for every such list. \<open>logLevel\<close> and
  \<open>bufMaxLines\<close> are only compared, never computed with.
\<close>

record Console =
  variables :: "(string \<times> ConVar) list"
  buffer :: "string list"
  bufMaxLines :: int
  logLevel :: int
  logInfoPrefix :: string
  logWarnPrefix :: string
  logErrPrefix :: string

definition NewConsole :: "int \<Rightarrow> int \<Rightarrow> string \<Rightarrow> string \<Rightarrow> string \<Rightarrow> Console" where
  "NewConsole maxLines level infoPrefix warnPrefix errPrefix =
     \<lparr>variables = [], buffer = [], bufMaxLines = maxLines, logLevel = level,
      logInfoPrefix = infoPrefix, logWarnPrefix = warnPrefix, logErrPrefix = errPrefix\<rparr>"

definition RegConVar :: "Console \<Rightarrow> ConVar \<Rightarrow> Console" where
  "RegConVar c cv = c\<lparr>variables := AList.update (varName cv) cv (variables c)\<rparr>"

definition ResetAllVar :: "Console \<Rightarrow> Console" where
  "ResetAllVar c = c\<lparr>variables := map (\<lambda>(k, cv). (k, Reset cv)) (variables c)\<rparr>"

text \<open>The method \<open>ConVar\<close> of \<open>Console\<close>; \<open>None\<close> is \<open>nil\<close>.\<close>

definition lookupConVar :: "Console \<Rightarrow> string \<Rightarrow> ConVar option" where
  "lookupConVar c name = map_of (variables c) (ToLower name)"

definition ConVars :: "Console \<Rightarrow> ConVar list" where
  "ConVars c = map snd (variables c)"

text \<open>The loop of \<open>Suggest\<close> over \<open>allCvs\<close>; \<open>cvs\<close> is the slice built so far.\<close>

fun suggest_loop :: "string \<Rightarrow> int \<Rightarrow> ConVar list \<Rightarrow> ConVar list \<Rightarrow> ConVar list" where
  "suggest_loop str n [] cvs = cvs"
| "suggest_loop str n (cv # rest) cvs =
     (if Contains (varName cv) (ToLower str)
      then (let cvs' = cvs @ [cv]
            in if int (length cvs') \<ge> n then cvs' else suggest_loop str n rest cvs')
      else suggest_loop str n rest cvs)"

definition Suggest :: "Console \<Rightarrow> string \<Rightarrow> int \<Rightarrow> ConVar list" where
  "Suggest c str n = (if length str < 3 then [] else suggest_loop str n (ConVars c) [])"

subsection \<open>The command executor\<close>

text \<open>The \<open>switch\<close> on the variable's kind; \<open>None\<close> is a conversion error.\<close>

definition parse_value ::
  "(string \<Rightarrow> 64 word option) \<Rightarrow> Kind \<Rightarrow> string \<Rightarrow> string \<Rightarrow> iface option" where
  "parse_value pf k valStr rest =
     (case k of
        KBool \<Rightarrow> map_option GoInt (Atoi valStr)
      | KInt \<Rightarrow> map_option GoInt (Atoi valStr)
      | KFloat64 \<Rightarrow> map_option GoFloat64 (pf valStr)
      | KString \<Rightarrow> Some (GoString rest)
      | KOther \<Rightarrow> Some Nil)"

text \<open>
  The call \<open>cv.write(cv.varType, value, lent)\<close> on the variable found under
  \<open>name\<close>; the map holds a pointer, so it sees what \<open>write\<close> stored.
\<close>

definition exec_write ::
  "Console \<Rightarrow> string \<Rightarrow> ConVar \<Rightarrow> iface \<Rightarrow> int \<Rightarrow> (error + ConVar option) \<times> Console \<times> event list" where
  "exec_write c name cv v lent =
     (case cv_write cv (varType cv) v lent of
        (err, cv', evs) \<Rightarrow>
          ((case err of Some e \<Rightarrow> Inl e | None \<Rightarrow> Inr (Some cv')),
           c\<lparr>variables := AList.update name cv' (variables c)\<rparr>, evs))"

text \<open>
  \<open>exec\<close> returns the pair of the Go function as a sum (\<open>Inl\<close> the error,
  \<open>Inr None\<close> for \<open>nil, nil\<close>), the console after the call and the callback
  invocations made. \<open>strconv.ParseFloat\<close> is the parameter \<open>pf\<close> (\<open>None\<close> is its
  error).
\<close>

definition exec ::
  "(string \<Rightarrow> 64 word option) \<Rightarrow> bool \<Rightarrow> string \<Rightarrow> Console
     \<Rightarrow> (error + ConVar option) \<times> Console \<times> event list" where
  "exec pf fromFile cmd0 c =
     (let cmd = TrimSpace (ToLower cmd0); tokens = Fields cmd in
      case tokens of
        [] \<Rightarrow> (Inr None, c, [])
      | name # _ \<Rightarrow>
          if name = ''#'' then (Inr None, c, [])
          else
            (case map_of (variables c) name of
               None \<Rightarrow> (Inl (VarNotFound name), c, [])
             | Some cv \<Rightarrow>
                 if fromFile \<and> isFunc cv then (Inr None, c, [])
                 else
                   (let lent = length tokens;
                        rest = TrimSpace (drop (length name) cmd);
                        valStr = (if lent = 1 then ''0'' else rest)
                    in case parse_value pf (varType cv) valStr rest of
                         None \<Rightarrow> (Inl (BadStringConversion valStr (varType cv)), c, [])
                       | Some v \<Rightarrow> exec_write c name cv v (int lent))))"

definition ExecCmd ::
  "(string \<Rightarrow> 64 word option) \<Rightarrow> string \<Rightarrow> Console
     \<Rightarrow> (error + ConVar option) \<times> Console \<times> event list" where
  "ExecCmd pf cmd c = exec pf False cmd c"

text \<open>A host session: the commands are executed one after the other.\<close>

fun exec_all ::
  "(string \<Rightarrow> 64 word option) \<Rightarrow> (bool \<times> string) list \<Rightarrow> Console \<Rightarrow> Console \<times> event list" where
  "exec_all pf [] c = (c, [])"
| "exec_all pf ((fromFile, cmd) # cmds) c =
     (case exec pf fromFile cmd c of
        (_, c', evs) \<Rightarrow> (case exec_all pf cmds c' of (c'', evs') \<Rightarrow> (c'', evs @ evs')))"

subsection \<open>The log buffer\<close>

definition LogNone :: int where "LogNone = 0"
definition LogInfo :: int where "LogInfo = 1"
definition LogWarning :: int where "LogWarning = 2"
definition LogError :: int where "LogError = 3"

text \<open>
  \<open>log\<close> (here \<open>console_log\<close>), on the text \<open>msg\<close> that \<open>fmt.Sprintf\<close> returns.
  The slice expression \<open>c.buffer[1:]\<close> panics on an empty buffer.
\<close>

definition console_log :: "Console \<Rightarrow> string \<Rightarrow> string \<Rightarrow> panic + Console" where
  "console_log c prefix msg =
     (if int (length (buffer c)) \<ge> bufMaxLines c
      then (case buffer c of
              [] \<Rightarrow> Inl SliceBounds
            | _ # rest \<Rightarrow> Inr (c\<lparr>buffer := rest @ [prefix @ msg]\<rparr>))
      else Inr (c\<lparr>buffer := buffer c @ [prefix @ msg]\<rparr>))"

definition LogInfof :: "Console \<Rightarrow> string \<Rightarrow> panic + Console" where
  "LogInfof c msg = (if LogInfo > logLevel c then Inr c else console_log c (logInfoPrefix c) msg)"

definition LogWarningf :: "Console \<Rightarrow> string \<Rightarrow> panic + Console" where
  "LogWarningf c msg = (if LogInfo > logLevel c then Inr c else console_log c (logWarnPrefix c) msg)"

definition LogErrorf :: "Console \<Rightarrow> string \<Rightarrow> panic + Console" where
  "LogErrorf c msg = (if LogInfo > logLevel c then Inr c else console_log c (logErrPrefix c) msg)"

definition LogPrintf :: "Console \<Rightarrow> string \<Rightarrow> panic + Console" where
  "LogPrintf c msg = console_log c [] msg"

definition SetLogLevel :: "Console \<Rightarrow> int \<Rightarrow> Console" where
  "SetLogLevel c level = c\<lparr>logLevel := level\<rparr>"

definition BufferRaw :: "Console \<Rightarrow> string list" where
  "BufferRaw c = buffer c"

definition ClearBuffer :: "Console \<Rightarrow> Console" where
  "ClearBuffer c = c\<lparr>buffer := []\<rparr>"

text \<open>A run of \<open>LogPrintf\<close> calls; the first panic ends it.\<close>

fun log_all :: "Console \<Rightarrow> string list \<Rightarrow> panic + Console" where
  "log_all c [] = Inr c"
| "log_all c (m # ms) = (case LogPrintf c m of Inl p \<Rightarrow> Inl p | Inr c' \<Rightarrow> log_all c' ms)"

subsection \<open>Persistence\<close>

text \<open>
  The file system: the content of each path that can be opened, and the paths that
  can be written.
\<close>

record FS =
  files :: "string \<Rightarrow> string option"
  writable :: "string \<Rightarrow> bool"






text \<open>
  \<open>bufio.Scanner\<close> with \<open>ScanLines\<close>: the text is cut at each line feed, a last
  piece without line feed counts when it is not empty, and one trailing carriage
  return is dropped from each line. The scanner stops for good at the first line that
  does not fit its buffer of \<open>MaxScanTokenSize\<close> bytes together with its line feed.
\<close>

fun cut_lines :: "string \<Rightarrow> string \<Rightarrow> string list" where
  "cut_lines [] cur = (if cur = [] then [] else [cur])"
| "cut_lines (c # s) cur =
     (if c = CHR 0x0A then cur # cut_lines s [] else cut_lines s (cur @ [c]))"

definition dropCR :: "string \<Rightarrow> string" where
  "dropCR l = (if l \<noteq> [] \<and> last l = CHR 0x0D then butlast l else l)"

definition utf8_len :: "string \<Rightarrow> nat" where
  "utf8_len s = sum_list (map (\<lambda>c. if (of_char c :: nat) < 128 then 1 else 2) s)"

definition MaxScanTokenSize :: nat where
  "MaxScanTokenSize = 64 * 1024"

definition scan_lines :: "string \<Rightarrow> string list" where
  "scan_lines text =
     map dropCR (takeWhile (\<lambda>l. utf8_len l < MaxScanTokenSize) (cut_lines text []))"

text \<open>The loop of \<open>Load\<close>: the result of each \<open>exec\<close> is dropped.\<close>

fun exec_lines ::
  "(string \<Rightarrow> 64 word option) \<Rightarrow> string list \<Rightarrow> Console \<Rightarrow> Console \<times> event list" where
  "exec_lines pf [] c = (c, [])"
| "exec_lines pf (l # ls) c =
     (case exec pf True l c of
        (_, c', evs) \<Rightarrow> (case exec_lines pf ls c' of (c'', evs') \<Rightarrow> (c'', evs @ evs')))"

definition Load ::
  "(string \<Rightarrow> 64 word option) \<Rightarrow> Console \<Rightarrow> string \<Rightarrow> FS \<Rightarrow> error option \<times> Console \<times> event list" where
  "Load pf c filePath fs =
     (case files fs filePath of
        None \<Rightarrow> (Some (OpenFailed filePath), c, [])
      | Some text \<Rightarrow> (case exec_lines pf (scan_lines text) c of (c', evs) \<Rightarrow> (None, c', evs)))"

section \<open>Example data\<close>

text \<open>A registry like the one of the example program, used for concrete runs.\<close>

definition cl_width :: ConVar where
  "cl_width = \<lparr>varName = ''cl_width'', varType = KInt, varDesc = ''Sets client horizontal resolution'',
      valCur = GoInt 640, valDefault = GoInt 640, isFunc = False\<rparr>"

definition con_clear :: ConVar where
  "con_clear = \<lparr>varName = ''con_clear'', varType = KInt, varDesc = ''Clears the console buffer.'',
      valCur = GoInt 0, valDefault = GoInt 0, isFunc = True\<rparr>"

definition demo_console :: Console where
  "demo_console = RegConVar (RegConVar (NewConsole 10 LogError ''[INFO] '' ''[WARNING] '' ''[ERROR] '') cl_width) con_clear"

definition no_floats :: "string \<Rightarrow> 64 word option" where
  "no_floats s = None"

definition info_console :: Console where
  "info_console = NewConsole 10 LogInfo ''[INFO] '' ''[WARNING] '' ''[ERROR] ''"

definition empty_console :: Console where
  "empty_console = NewConsole 0 LogError ''[INFO] '' ''[WARNING] '' ''[ERROR] ''"

definition demo_fs :: FS where
  "demo_fs = \<lparr>files = [''convars.ini'' \<mapsto> ''nosuch 1\<newline>cl_width ten\<newline>cl_width 800\<newline>''],
               writable = (\<lambda>path. True)\<rparr>"




section \<open>What survives a round trip through a file\<close>








definition cl_name :: ConVar where
  "cl_name = \<lparr>varName = ''cl_name'', varType = KString, varDesc = ''Sets the player name'',
      valCur = GoString ''Hero'', valDefault = GoString ''player'', isFunc = False\<rparr>"


definition saved_console :: Console where
  "saved_console =
     RegConVar (RegConVar (RegConVar (NewConsole 10 LogError ''[INFO] '' ''[WARNING] '' ''[ERROR] '')
       (cl_width\<lparr>valCur := GoInt 800\<rparr>)) (cl_name\<lparr>valCur := GoString ''zed 2''\<rparr>)) con_clear"

section \<open>Callbacks that run\<close>

text \<open>
  What the callbacks do to the console: \<open>run e c\<close> is the console that the callback
  of the variable \<open>cb_var e\<close>, called on the console \<open>c\<close> with \<open>cb_old e\<close> and
  \<open>cb_new e\<close>, leaves behind. \<open>write\<close> calls the callback as its last step and
  \<open>exec\<close> only returns after \<open>write\<close>, so the console after \<open>exec\<close> is what the
  callback makes of the console that \<open>write\<close> left. The variable returned is the
  one \<open>write\<close> left.
\<close>

definition exec_run ::
  "(string \<Rightarrow> 64 word option) \<Rightarrow> (event \<Rightarrow> Console \<Rightarrow> Console) \<Rightarrow> bool \<Rightarrow> string \<Rightarrow> Console
     \<Rightarrow> (error + ConVar option) \<times> Console \<times> event list" where
  "exec_run pf run fromFile cmd c =
     (case exec pf fromFile cmd c of
        (r, c', evs) \<Rightarrow> (r, foldl (\<lambda>x e. run e x) c' evs, evs))"

fun exec_all_run ::
  "(string \<Rightarrow> 64 word option) \<Rightarrow> (event \<Rightarrow> Console \<Rightarrow> Console) \<Rightarrow> (bool \<times> string) list
     \<Rightarrow> Console \<Rightarrow> Console \<times> event list" where
  "exec_all_run pf run [] c = (c, [])"
| "exec_all_run pf run ((fromFile, cmd) # cmds) c =
     (case exec_run pf run fromFile cmd c of
        (_, c', evs) \<Rightarrow>
          (case exec_all_run pf run cmds c' of (c'', evs') \<Rightarrow> (c'', evs @ evs')))"

text \<open>Every command variable of the registry holds its default value.\<close>

definition at_default :: "Console \<Rightarrow> bool" where
  "at_default c = list_all (\<lambda>(k, cv). isFunc cv \<longrightarrow> valCur cv = valDefault cv) (variables c)"

text \<open>
  A registry with two of the command variables of \<open>RegDefaultConVars\<close> and their
  callbacks: \<open>con_clear\<close> calls \<open>ClearBuffer\<close>, \<open>var_reset_all\<close> calls
  \<open>ResetAllVar\<close>; the callback of \<open>cl_width\<close> leaves the console alone.
\<close>

definition var_reset_all :: ConVar where
  "var_reset_all = \<lparr>varName = ''var_reset_all'', varType = KInt,
      varDesc = ''Resets all convars to their default values.'',
      valCur = GoInt 0, valDefault = GoInt 0, isFunc = True\<rparr>"

definition demo_callbacks :: "event \<Rightarrow> Console \<Rightarrow> Console" where
  "demo_callbacks e c =
     (if cb_var e = ''con_clear'' then ClearBuffer c
      else if cb_var e = ''var_reset_all'' then ResetAllVar c
      else c)"

definition reset_console :: Console where
  "reset_console =
     RegConVar (RegConVar (RegConVar (NewConsole 10 LogError ''[INFO] '' ''[WARNING] '' ''[ERROR] '')
       (cl_width\<lparr>valCur := GoInt 800\<rparr>)) con_clear) var_reset_all"

text \<open>
  A file whose second line is too long for the scanner: a string of 65536 letters.
\<close>

definition long_value :: string where
  "long_value = replicate 65536 (CHR ''a'')"

definition long_text :: string where
  "long_text = ''cl_width 700'' @ [CHR 0x0A] @ ''cl_name '' @ long_value @ [CHR 0x0A]
                 @ ''cl_width 900'' @ [CHR 0x0A]"

definition long_fs :: FS where
  "long_fs = \<lparr>files = [''convars.ini'' \<mapsto> long_text], writable = (\<lambda>path. True)\<rparr>"

section \<open>Properties\<close>

lemmas text_defs = Fields_def IsSpace_def TrimSpace_def ToLower_def ToLower_rune_def char_of_eq_iff
  Atoi_def parseDigits_def isDigit_def digitVal_def
lemmas demo_defs = demo_console_def cl_width_def con_clear_def RegConVar_def NewConsole_def

lemma cv_write_error:
  "cv_write cv vt v argc = (Some e, cv', evs) \<Longrightarrow> cv' = cv \<and> evs = []"
  by (auto simp: cv_write_def Let_def split: if_splits)

lemma exec_write_error:
  assumes "map_of (variables c) name = Some cv" and "isl (fst (exec_write c name cv v lent))"
  shows "snd (exec_write c name cv v lent) = (c, [])"
proof -
  obtain err cv' evs where w: "cv_write cv (varType cv) v lent = (err, cv', evs)"
    by (cases "cv_write cv (varType cv) v lent") auto
  with assms(2) obtain e where "err = Some e"
    by (cases err) (auto simp: exec_write_def)
  with w have "cv' = cv" "evs = []"
    using cv_write_error by blast+
  with w assms(1) show ?thesis
    by (simp add: exec_write_def AList.update_triv)
qed

lemma exec_cases:
  obtains (idle) "exec pf fromFile cmd c = (Inr None, c, [])"
  | (failed) e where "exec pf fromFile cmd c = (Inl e, c, [])"
  | (written) name args cv v where
      "Fields (TrimSpace (ToLower cmd)) = name # args"
      "name \<noteq> ''#''"
      "map_of (variables c) name = Some cv"
      "\<not> (fromFile \<and> isFunc cv)"
      "parse_value pf (varType cv) (if args = [] then ''0'' else TrimSpace (drop (length name) (TrimSpace (ToLower cmd))))
           (TrimSpace (drop (length name) (TrimSpace (ToLower cmd)))) = Some v"
      "exec pf fromFile cmd c = exec_write c name cv v (1 + int (length args))"
proof (cases "Fields (TrimSpace (ToLower cmd))")
  case Nil
  then show ?thesis using idle by (simp add: exec_def)
next
  case (Cons name args)
  show ?thesis
  proof (cases "name = ''#''")
    case True
    with Cons show ?thesis using idle by (simp add: exec_def)
  next
    case False
    note nohash = this
    show ?thesis
    proof (cases "map_of (variables c) name")
      case None
      with Cons nohash show ?thesis using failed by (simp add: exec_def)
    next
      case (Some cv)
      show ?thesis
      proof (cases "fromFile \<and> isFunc cv")
        case True
        with Cons nohash Some show ?thesis using idle by (simp add: exec_def)
      next
        case False
        let ?rest = "TrimSpace (drop (length name) (TrimSpace (ToLower cmd)))"
        let ?valStr = "if args = [] then ''0'' else ?rest"
        show ?thesis
        proof (cases "parse_value pf (varType cv) ?valStr ?rest")
          case None
          with Cons nohash Some False show ?thesis
            using failed by (auto simp add: exec_def Let_def)
        next
          case (Some v)
          with Cons nohash \<open>map_of (variables c) name = Some cv\<close> False
          have "exec pf fromFile cmd c = exec_write c name cv v (1 + int (length args))"
            by (auto simp add: exec_def Let_def)
          with Cons nohash \<open>map_of (variables c) name = Some cv\<close> False Some
          show ?thesis using written by blast
        qed
      qed
    qed
  qed
qed

lemma exec_error: "isl (fst (exec pf fromFile cmd c)) \<Longrightarrow> snd (exec pf fromFile cmd c) = (c, [])"
proof (cases rule: exec_cases[of pf fromFile cmd c])
  case idle then show ?thesis by simp
next
  case (failed e) then show ?thesis by simp
next
  case (written name args cv v)
  assume "isl (fst (exec pf fromFile cmd c))"
  with written show ?thesis by (simp add: exec_write_error)
qed


text \<open>
  Claim C10. Whenever \<open>write\<close> returns an error, the variable is as it was and the
  callback has not been invoked; the same holds for the \<open>Set\<close> wrappers and for
  \<open>exec\<close> (which then leaves the whole console as it was), for ordinary and for
  command-type variables alike.
\<close>

theorem write_error_changes_nothing:
  "(fst (cv_write cv vt v argc) \<noteq> None \<longrightarrow> snd (cv_write cv vt v argc) = (cv, []))
   \<and> (fst (SetBool cv b) \<noteq> None \<longrightarrow> snd (SetBool cv b) = (cv, []))
   \<and> (fst (SetInt cv i) \<noteq> None \<longrightarrow> snd (SetInt cv i) = (cv, []))
   \<and> (fst (SetFloat64 cv f) \<noteq> None \<longrightarrow> snd (SetFloat64 cv f) = (cv, []))
   \<and> (fst (SetString cv s) \<noteq> None \<longrightarrow> snd (SetString cv s) = (cv, []))
   \<and> (isl (fst (exec pf fromFile cmd c)) \<longrightarrow> snd (exec pf fromFile cmd c) = (c, []))"
proof -
  have w: "fst (cv_write cv k x n) \<noteq> None \<longrightarrow> snd (cv_write cv k x n) = (cv, [])" for k x n
  proof (cases "cv_write cv k x n")
    case (fields err cv' evs)
    then show ?thesis using cv_write_error[of cv k x n _ cv' evs] by auto
  qed
  show ?thesis
    using w exec_error[of pf fromFile cmd c]
    by (simp add: SetBool_def SetInt_def SetFloat64_def SetString_def)
qed

text \<open>
  The theorem at \<open>SetString\<close> on an integer command variable, at a \<open>nil\<close> value and
  at a command line whose value does not parse.
\<close>

theorem write_error_changes_nothing_witness:
  "fst (SetString con_clear ''x'') = Some (VarBadType ''con_clear'' KString)
   \<and> snd (SetString con_clear ''x'') = (con_clear, [])
   \<and> fst (cv_write cl_width KInt Nil 2) = Some NilValue
   \<and> snd (cv_write cl_width KInt Nil 2) = (cl_width, [])
   \<and> fst (exec no_floats False ''cl_width ten'' demo_console) = Inl (BadStringConversion ''ten'' KInt)
   \<and> snd (exec no_floats False ''cl_width ten'' demo_console) = (demo_console, [])"
proof -
  have a: "fst (SetString con_clear ''x'') = Some (VarBadType ''con_clear'' KString)"
    by (simp add: SetString_def cv_write_def con_clear_def)
  have b: "fst (cv_write cl_width KInt Nil 2) = Some NilValue"
    by (simp add: cv_write_def)
  have c: "fst (exec no_floats False ''cl_width ten'' demo_console) = Inl (BadStringConversion ''ten'' KInt)"
    by (simp add: exec_def parse_value_def no_floats_def text_defs demo_defs)
  show ?thesis
    using a b c
      write_error_changes_nothing[of con_clear KString "GoString ''x''" 2 True 0 0 "''x''"
        no_floats False "''cl_width ten''" demo_console]
      write_error_changes_nothing[of cl_width KInt Nil 2 True 0 0 "''x''"
        no_floats False "''cl_width ten''" demo_console]
    by simp
qed

lemma exec_lines_as_exec_all: "exec_lines pf ls c = exec_all pf (map (Pair True) ls) c"
  by (induction ls arbitrary: c) (simp_all split: prod.splits)

text \<open>
  Claim C9. A command line that consists of the name of a registered variable alone,
  for a variable of kind Int, Float64 or String that is not a command, leaves the
  console as it is, invokes no callback and returns no error. (For Float64 the text
  \<open>0\<close> has to parse, as it does in \<open>strconv.ParseFloat\<close>.)
\<close>

theorem bare_name_is_noop:
  assumes "Fields (TrimSpace (ToLower cmd)) = [name]"
    and "map_of (variables c) name = Some cv"
    and "\<not> isFunc cv"
    and "varType cv = KInt \<or> varType cv = KFloat64 \<or> varType cv = KString"
    and "varType cv = KFloat64 \<longrightarrow> pf ''0'' \<noteq> None"
  shows "exec pf fromFile cmd c = (Inr (if name = ''#'' then None else Some cv), c, [])"
proof (cases "name = ''#''")
  case True
  with assms(1) show ?thesis by (simp add: exec_def)
next
  case False
  have typed: "\<exists>v. parse_value pf (varType cv) ''0'' rest = Some v \<and> typeKind v = Some (varType cv)" for rest
  proof -
    have "Atoi ''0'' = Some 0"
      by (simp add: Atoi_def parseDigits_def isDigit_def digitVal_def)
    with assms(4,5) show ?thesis
      by (auto simp: parse_value_def)
  qed
  let ?rest = "TrimSpace (drop (length name) (TrimSpace (ToLower cmd)))"
  from typed[of ?rest] obtain v where
    v: "parse_value pf (varType cv) ''0'' ?rest = Some v" "typeKind v = Some (varType cv)"
    by blast
  then have "v \<noteq> Nil" by auto
  with v assms(3) have "cv_write cv (varType cv) v 1 = (None, cv, [])"
    by (simp add: cv_write_def)
  with assms(2) have "exec_write c name cv v 1 = (Inr (Some cv), c, [])"
    by (simp add: exec_write_def AList.update_triv)
  with False assms(1,2,3) v show ?thesis
    by (simp add: exec_def Let_def)
qed

text \<open>
  The theorem at the line \<open>CL_Width\<close> between two spaces.
\<close>

theorem bare_name_is_noop_witness:
  "Fields (TrimSpace (ToLower '' CL_Width '')) = [''cl_width'']
   \<and> map_of (variables demo_console) ''cl_width'' = Some cl_width
   \<and> valCur cl_width = GoInt 640 \<and> \<not> isFunc cl_width
   \<and> exec no_floats False '' CL_Width '' demo_console = (Inr (Some cl_width), demo_console, [])"
proof -
  have p1: "Fields (TrimSpace (ToLower '' CL_Width '')) = [''cl_width'']"
    by (simp add: text_defs)
  have p2: "map_of (variables demo_console) ''cl_width'' = Some cl_width"
    by (simp add: demo_defs)
  have p3: "\<not> isFunc cl_width" and p4: "varType cl_width = KInt \<or> varType cl_width = KFloat64 \<or> varType cl_width = KString"
    and p5: "varType cl_width = KFloat64 \<longrightarrow> no_floats ''0'' \<noteq> None"
    and p6: "valCur cl_width = GoInt 640"
    by (simp_all add: cl_width_def)
  show ?thesis
    using p1 p2 p3 p6
      bare_name_is_noop[of "'' CL_Width ''" "''cl_width''" demo_console cl_width no_floats False,
        OF p1 p2 p3 p4 p5]
    by simp
qed

subsection \<open>Log levels\<close>

lemma Log_gates:
  "LogInfof c m = (if LogInfo \<le> logLevel c then console_log c (logInfoPrefix c) m else Inr c)"
  "LogWarningf c m = (if LogInfo \<le> logLevel c then console_log c (logWarnPrefix c) m else Inr c)"
  "LogErrorf c m = (if LogInfo \<le> logLevel c then console_log c (logErrPrefix c) m else Inr c)"
  by (simp_all add: LogInfof_def LogWarningf_def LogErrorf_def)

text \<open>
  Claim C4. Each helper should record iff its own level is at most the log level. The
  code tests \<open>LogInfo\<close> in all three: with the log level at \<open>LogInfo\<close>, below
  \<open>LogWarning\<close> and \<open>LogError\<close>, a warning and an error are recorded all the same.
\<close>

theorem warning_recorded_at_info_level:
  "logLevel info_console = LogInfo
   \<and> logLevel info_console < LogWarning \<and> logLevel info_console < LogError
   \<and> LogWarningf info_console ''low disk'' =
        Inr (info_console\<lparr>buffer := [''[WARNING] low disk'']\<rparr>)
   \<and> LogErrorf info_console ''no disk'' =
        Inr (info_console\<lparr>buffer := [''[ERROR] no disk'']\<rparr>)"
  by (simp add: info_console_def NewConsole_def LogWarningf_def LogErrorf_def console_log_def
      LogInfo_def LogWarning_def LogError_def)

subsection \<open>The bounded buffer\<close>

lemma LogPrintf_room:
  assumes "1 \<le> bufMaxLines c" and "int (length (buffer c)) \<le> bufMaxLines c"
  shows "LogPrintf c m =
     Inr (c\<lparr>buffer := drop (length (buffer c) + 1 - nat (bufMaxLines c)) (buffer c @ [m])\<rparr>)"
proof (cases "int (length (buffer c)) \<ge> bufMaxLines c")
  case True
  with assms have len: "length (buffer c) = nat (bufMaxLines c)" by simp
  with assms obtain x rest where b: "buffer c = x # rest"
    by (cases "buffer c") auto
  with True len show ?thesis
    by (simp add: LogPrintf_def console_log_def)
next
  case False
  then show ?thesis
    by (simp add: LogPrintf_def console_log_def)
qed

lemma log_all_keeps_newest:
  assumes "1 \<le> bufMaxLines c"
  shows "int (length (buffer c)) \<le> bufMaxLines c \<Longrightarrow>
     log_all c ms =
       Inr (c\<lparr>buffer := drop (length (buffer c) + length ms - nat (bufMaxLines c)) (buffer c @ ms)\<rparr>)"
  using assms
proof (induction ms arbitrary: c)
  case Nil
  then show ?case by simp
next
  case (Cons m ms)
  let ?c' = "c\<lparr>buffer := drop (length (buffer c) + 1 - nat (bufMaxLines c)) (buffer c @ [m])\<rparr>"
  have step: "LogPrintf c m = Inr ?c'"
    using LogPrintf_room[OF Cons.prems(2) Cons.prems(1)] .
  have len: "int (length (buffer ?c')) \<le> bufMaxLines ?c'" and max: "1 \<le> bufMaxLines ?c'"
    using Cons.prems by auto
  have "log_all ?c' ms =
     Inr (?c'\<lparr>buffer := drop (length (buffer ?c') + length ms - nat (bufMaxLines ?c')) (buffer ?c' @ ms)\<rparr>)"
    using Cons.IH[OF len max] .
  moreover have "drop (length (buffer ?c') + length ms - nat (bufMaxLines ?c')) (buffer ?c' @ ms)
      = drop (length (buffer c) + length (m # ms) - nat (bufMaxLines c)) (buffer c @ m # ms)"
  proof (cases "int (length (buffer c)) \<ge> bufMaxLines c")
    case True
    with Cons.prems have "length (buffer c) = nat (bufMaxLines c)" by simp
    with Cons.prems show ?thesis by (cases "buffer c") auto
  next
    case False
    then show ?thesis by auto
  qed
  ultimately show ?case using step by simp
qed

lemma snapshot_after_logging:
  assumes "1 \<le> maxLines" and "length ms = nat maxLines + k"
  shows "\<exists>c. log_all (NewConsole maxLines lvl p1 p2 p3) ms = Inr c
          \<and> BufferRaw c = drop k ms \<and> int (length (BufferRaw c)) = maxLines"
  using assms log_all_keeps_newest[of "NewConsole maxLines lvl p1 p2 p3" ms]
  by (simp add: NewConsole_def BufferRaw_def)

text \<open>
  Claim C6. After \<open>maxLines + k\<close> messages the snapshot should hold the newest
  \<open>maxLines\<close> of them, for every \<open>maxLines\<close>. With \<open>maxLines = 0\<close> and one message
  (\<open>k = 1\<close>) there is no snapshot: \<open>log\<close> slices the empty buffer and panics.
  (\<open>snapshot_after_logging\<close> is the claim for \<open>maxLines\<close> from 1 on.)
\<close>

theorem no_snapshot_at_zero_capacity:
  "bufMaxLines empty_console = 0 \<and> BufferRaw empty_console = []
   \<and> log_all empty_console [''first''] = Inl SliceBounds"
  by (simp add: empty_console_def NewConsole_def BufferRaw_def LogPrintf_def console_log_def)

text \<open>
  Claim C7. No operation should panic at run time. On a console made with
  \<open>NewConsole(0, ...)\<close> every logging call panics: \<open>c.buffer[1:]\<close> on the empty
  buffer is out of range.
\<close>

theorem logging_panics_at_zero_capacity:
  "LogPrintf empty_console ''hello'' = Inl SliceBounds
   \<and> LogInfof empty_console ''hello'' = Inl SliceBounds
   \<and> LogErrorf (NewConsole (- 1) LogError [] [] []) ''hello'' = Inl SliceBounds"
  by (simp add: empty_console_def NewConsole_def LogPrintf_def LogInfof_def LogErrorf_def
      console_log_def LogInfo_def LogError_def)

subsection \<open>Suggestions\<close>

lemma suggest_loop_length:
  "int (length cvs) < n \<Longrightarrow> int (length (suggest_loop str n all cvs)) \<le> n"
  by (induction all arbitrary: cvs) (auto simp: Let_def)

lemma suggest_loop_set:
  "set (suggest_loop str n all cvs) \<subseteq>
     set cvs \<union> {cv \<in> set all. Contains (varName cv) (ToLower str)}"
proof (induction all arbitrary: cvs)
  case Nil
  then show ?case by simp
next
  case (Cons a all)
  show ?case
    using Cons.IH[of "cvs @ [a]"] Cons.IH[of cvs]
    by (auto simp: Let_def)
qed

lemma Suggest_positive_limit:
  "(length str < 3 \<longrightarrow> Suggest c str n = [])
   \<and> (1 \<le> n \<longrightarrow> int (length (Suggest c str n)) \<le> n)
   \<and> (\<forall>cv \<in> set (Suggest c str n). cv \<in> set (ConVars c) \<and> Contains (varName cv) (ToLower str))"
  using suggest_loop_length[of "[]" n str "ConVars c"] suggest_loop_set[of str n "ConVars c" "[]"]
  by (auto simp: Suggest_def)

text \<open>
  Claim C8. \<open>Suggest\<close> should return at most \<open>limit\<close> variables. The loop tests the
  length after it has appended a match, so with limit 0 the first match is returned:
  one variable, more than the limit. (\<open>Suggest_positive_limit\<close> is the claim for
  limits from 1 on.)
\<close>

theorem suggest_exceeds_zero_limit:
  "Suggest demo_console ''cl_'' 0 = [cl_width] \<and> int (length (Suggest demo_console ''cl_'' 0)) > 0"
  by (simp add: Suggest_def ConVars_def demo_defs ToLower_def ToLower_rune_def)

subsection \<open>Loading a file\<close>

lemma exec_lines_append:
  "exec_lines pf (ls1 @ ls2) c =
     (case exec_lines pf ls1 c of (c1, e1) \<Rightarrow>
        (case exec_lines pf ls2 c1 of (c2, e2) \<Rightarrow> (c2, e1 @ e2)))"
  by (induction ls1 arbitrary: c) (simp_all split: prod.splits)

lemma exec_lines_failed_line:
  assumes "isl (fst (exec pf True l c))"
  shows "exec_lines pf (l # ls) c = exec_lines pf ls c"
proof -
  obtain r c' evs where e: "exec pf True l c = (r, c', evs)"
    by (cases "exec pf True l c") auto
  with assms exec_error[of pf True l c] have "c' = c" "evs = []" by simp_all
  with e show ?thesis by (simp split: prod.splits)
qed

text \<open>
  What \<open>Load\<close> does with the lines the scanner yields: it returns an error exactly
  when the file cannot be opened, and then does nothing else; otherwise it passes
  those lines to \<open>exec\<close> with \<open>fromFile\<close> set, one after the other, and returns
  \<open>nil\<close>; a line on which \<open>exec\<close> fails changes nothing, and the lines after it
  are executed as if it were not there.
\<close>

lemma Load_runs_scanned_lines:
  "(fst (Load pf c path fs) \<noteq> None) = (files fs path = None)
   \<and> (files fs path = None \<longrightarrow> Load pf c path fs = (Some (OpenFailed path), c, []))
   \<and> (files fs path = Some text \<longrightarrow>
        Load pf c path fs = (None, exec_all pf (map (Pair True) (scan_lines text)) c))
   \<and> (isl (fst (exec pf True l (fst (exec_lines pf ls1 c)))) \<longrightarrow>
        exec_lines pf (ls1 @ l # ls2) c = exec_lines pf (ls1 @ ls2) c)"
proof -
  have a: "(fst (Load pf c path fs) \<noteq> None) = (files fs path = None)"
    by (simp add: Load_def split: option.splits prod.splits)
  have b: "files fs path = None \<longrightarrow> Load pf c path fs = (Some (OpenFailed path), c, [])"
    by (simp add: Load_def)
  have c: "files fs path = Some text \<longrightarrow>
        Load pf c path fs = (None, exec_all pf (map (Pair True) (scan_lines text)) c)"
    by (simp add: Load_def exec_lines_as_exec_all split: prod.splits)
  have d: "isl (fst (exec pf True l (fst (exec_lines pf ls1 c)))) \<longrightarrow>
        exec_lines pf (ls1 @ l # ls2) c = exec_lines pf (ls1 @ ls2) c"
  proof
    assume f: "isl (fst (exec pf True l (fst (exec_lines pf ls1 c))))"
    obtain c1 e1 where p: "exec_lines pf ls1 c = (c1, e1)"
      by (cases "exec_lines pf ls1 c") auto
    with f have "exec_lines pf (l # ls2) c1 = exec_lines pf ls2 c1"
      using exec_lines_failed_line[of pf l c1 ls2] by simp
    with p show "exec_lines pf (ls1 @ l # ls2) c = exec_lines pf (ls1 @ ls2) c"
      by (simp add: exec_lines_append)
  qed
  from a b c d show ?thesis by blast
qed

text \<open>
  A file of three lines: an unknown variable, a value that does not parse and a good
  line. The good line is executed; a missing file is the only error.
\<close>

lemma Load_runs_scanned_lines_example:
  "files demo_fs ''convars.ini'' = Some ''nosuch 1\<newline>cl_width ten\<newline>cl_width 800\<newline>''
   \<and> scan_lines ''nosuch 1\<newline>cl_width ten\<newline>cl_width 800\<newline>'' = [''nosuch 1'', ''cl_width ten'', ''cl_width 800'']
   \<and> isl (fst (exec no_floats True ''nosuch 1'' demo_console))
   \<and> isl (fst (exec no_floats True ''cl_width ten'' demo_console))
   \<and> Load no_floats demo_console ''convars.ini'' demo_fs =
        (None, exec_lines no_floats [''cl_width 800''] demo_console)
   \<and> files demo_fs ''console.log'' = None
   \<and> Load no_floats demo_console ''console.log'' demo_fs = (Some (OpenFailed ''console.log''), demo_console, [])"
proof -
  let ?text = "''nosuch 1\<newline>cl_width ten\<newline>cl_width 800\<newline>''"
  have f: "files demo_fs ''convars.ini'' = Some ?text" and g: "files demo_fs ''console.log'' = None"
    by (simp_all add: demo_fs_def)
  have s: "scan_lines ?text = [''nosuch 1'', ''cl_width ten'', ''cl_width 800'']"
    by (simp add: scan_lines_def dropCR_def utf8_len_def MaxScanTokenSize_def)
  have e1: "isl (fst (exec no_floats True ''nosuch 1'' demo_console))"
    by (simp add: exec_def text_defs demo_defs)
  have e2: "isl (fst (exec no_floats True ''cl_width ten'' demo_console))"
    by (simp add: exec_def parse_value_def text_defs demo_defs)
  have e1': "isl (fst (exec no_floats True ''nosuch 1'' (fst (exec_lines no_floats [] demo_console))))"
    using e1 by simp
  have e2': "isl (fst (exec no_floats True ''cl_width ten'' (fst (exec_lines no_floats [] demo_console))))"
    using e2 by simp
  have l1: "exec_lines no_floats ([] @ ''nosuch 1'' # [''cl_width ten'', ''cl_width 800'']) demo_console
      = exec_lines no_floats ([] @ [''cl_width ten'', ''cl_width 800'']) demo_console"
    using e1' Load_runs_scanned_lines[of no_floats demo_console "''convars.ini''" demo_fs ?text
        "''nosuch 1''" "[]" "[''cl_width ten'', ''cl_width 800'']"]
    by blast
  have l2: "exec_lines no_floats ([] @ ''cl_width ten'' # [''cl_width 800'']) demo_console
      = exec_lines no_floats ([] @ [''cl_width 800'']) demo_console"
    using e2' Load_runs_scanned_lines[of no_floats demo_console "''convars.ini''" demo_fs ?text
        "''cl_width ten''" "[]" "[''cl_width 800'']"]
    by blast
  have ld: "Load no_floats demo_console ''convars.ini'' demo_fs =
        (None, exec_all no_floats (map (Pair True) (scan_lines ?text)) demo_console)"
    using f Load_runs_scanned_lines[of no_floats demo_console "''convars.ini''" demo_fs ?text
        "''nosuch 1''" "[]" "[]"]
    by blast
  have lo: "Load no_floats demo_console ''console.log'' demo_fs = (Some (OpenFailed ''console.log''), demo_console, [])"
    using g Load_runs_scanned_lines[of no_floats demo_console "''console.log''" demo_fs ?text
        "''nosuch 1''" "[]" "[]"]
    by blast
  have "Load no_floats demo_console ''convars.ini'' demo_fs =
        (None, exec_lines no_floats [''cl_width 800''] demo_console)"
    using ld l1 l2 by (simp only: s exec_lines_as_exec_all append_Nil)
  with f g s e1 e2 lo show ?thesis by blast
qed

subsection \<open>Writes to an ordinary variable\<close>

lemma cv_write_passes:
  "(fst (cv_write cv vt v argc) = None) = (v \<noteq> Nil \<and> typeKind v = Some vt \<and> varType cv = vt)"
  by (auto simp: cv_write_def Let_def)








subsection \<open>Text lemmas\<close>








subsection \<open>Decimal text\<close>













subsection \<open>Equality of values\<close>



subsection \<open>Reading back a saved line\<close>






subsection \<open>Scanning what Save wrote\<close>

lemma cut_lines_line:
  "CHR 0x0A \<notin> set l \<Longrightarrow> cut_lines (l @ CHR 0x0A # rest) cur = (cur @ l) # cut_lines rest []"
  by (induction l arbitrary: cur) auto






subsection \<open>Save, then Load\<close>





section \<open>Command variables\<close>

lemma NewConVar_command:
  assumes "NewConVar name vt True desc dflt = Inr cv"
  shows "isFunc cv" and "valCur cv = dflt" and "valDefault cv = dflt" and "varType cv = vt"
    and "vt = KInt \<or> vt = KFloat64 \<or> vt = KString"
  using assms by (auto simp: NewConVar_def split: option.splits if_splits)

lemma cv_write_command:
  assumes "isFunc cv"
  shows "snd (cv_write cv k v argc) =
     (cv, if v \<noteq> Nil \<and> typeKind v = Some k \<and> varType cv = k
          then [valSet cv (valDefault cv) v] else [])"
  using assms by (auto simp: cv_write_def)

lemma parse_value_kind:
  assumes "vt = KInt \<or> vt = KFloat64 \<or> vt = KString" and "parse_value pf vt a b = Some v"
  shows "v \<noteq> Nil" and "typeKind v = Some vt"
  using assms by (auto simp: parse_value_def)

lemma exec_command:
  assumes f: "isFunc cv" and k: "varType cv = KInt \<or> varType cv = KFloat64 \<or> varType cv = KString"
    and m: "map_of (variables c) n = Some cv"
    and tk: "Fields (TrimSpace (ToLower cmd)) = n # args" and hash: "n \<noteq> ''#''"
  shows "exec pf True cmd c = (Inr None, c, [])"
    and "exec pf False cmd c =
      (case parse_value pf (varType cv)
              (if args = [] then ''0'' else TrimSpace (drop (length n) (TrimSpace (ToLower cmd))))
              (TrimSpace (drop (length n) (TrimSpace (ToLower cmd)))) of
         None \<Rightarrow>
           (Inl (BadStringConversion
                  (if args = [] then ''0'' else TrimSpace (drop (length n) (TrimSpace (ToLower cmd))))
                  (varType cv)), c, [])
       | Some x \<Rightarrow> (Inr (Some cv), c, [valSet cv (valDefault cv) x]))"
proof -
  show "exec pf True cmd c = (Inr None, c, [])"
    using f m tk hash by (simp add: exec_def)
  let ?rest = "TrimSpace (drop (length n) (TrimSpace (ToLower cmd)))"
  let ?valStr = "if args = [] then ''0'' else ?rest"
  have w: "exec_write c n cv x lent = (Inr (Some cv), c, [valSet cv (valDefault cv) x])"
    if "parse_value pf (varType cv) ?valStr ?rest = Some x" for x lent
  proof -
    note p = parse_value_kind[OF k that]
    have "fst (cv_write cv (varType cv) x lent) = None"
      using p f by (simp add: cv_write_def)
    moreover have "snd (cv_write cv (varType cv) x lent) = (cv, [valSet cv (valDefault cv) x])"
      using cv_write_command[OF f, of "varType cv" x lent] p by simp
    ultimately have "cv_write cv (varType cv) x lent = (None, cv, [valSet cv (valDefault cv) x])"
      by (simp add: prod_eq_iff)
    with m show ?thesis
      by (simp add: exec_write_def AList.update_triv)
  qed
  show "exec pf False cmd c =
      (case parse_value pf (varType cv) ?valStr ?rest of
         None \<Rightarrow> (Inl (BadStringConversion ?valStr (varType cv)), c, [])
       | Some x \<Rightarrow> (Inr (Some cv), c, [valSet cv (valDefault cv) x]))"
    using m tk hash w by (auto simp: exec_def Let_def split: option.splits)
qed

lemma list_all_update:
  "list_all P al \<Longrightarrow> P (k, v) \<Longrightarrow> list_all P (AList.update k v al)"
  by (induction al) auto

lemma at_default_RegConVar:
  "at_default c \<Longrightarrow> isFunc cv \<longrightarrow> valCur cv = valDefault cv \<Longrightarrow> at_default (RegConVar c cv)"
  by (simp add: at_default_def RegConVar_def list_all_update)

lemma at_default_ResetAllVar: "at_default (ResetAllVar c)"
  by (auto simp: at_default_def ResetAllVar_def Reset_def list_all_iff)

lemma at_default_ClearBuffer: "at_default c \<Longrightarrow> at_default (ClearBuffer c)"
  by (simp add: at_default_def ClearBuffer_def)

lemma cv_write_keeps_default:
  "isFunc cv \<longrightarrow> valCur cv = valDefault cv \<Longrightarrow>
   isFunc (fst (snd (cv_write cv k v argc))) \<longrightarrow>
     valCur (fst (snd (cv_write cv k v argc))) = valDefault (fst (snd (cv_write cv k v argc)))"
  by (auto simp: cv_write_def Let_def)

lemma at_default_exec:
  assumes "at_default c"
  shows "at_default (fst (snd (exec pf fromFile cmd c)))"
proof (cases rule: exec_cases[of pf fromFile cmd c])
  case idle with assms show ?thesis by simp
next
  case (failed e) with assms show ?thesis by simp
next
  case (written name args cv v)
  from written(3) have "(name, cv) \<in> set (variables c)" by (rule map_of_SomeD)
  with assms have "isFunc cv \<longrightarrow> valCur cv = valDefault cv"
    by (auto simp: at_default_def list_all_iff)
  note keep = cv_write_keeps_default[OF this, of "varType cv" v "1 + int (length args)"]
  obtain err cv' evs where w: "cv_write cv (varType cv) v (1 + int (length args)) = (err, cv', evs)"
    by (cases "cv_write cv (varType cv) v (1 + int (length args))") auto
  with keep have "isFunc cv' \<longrightarrow> valCur cv' = valDefault cv'" by simp
  then have "at_default (c\<lparr>variables := AList.update name cv' (variables c)\<rparr>)"
    using assms by (simp add: at_default_def list_all_update)
  with written(6) w show ?thesis
    by (simp add: exec_write_def)
qed

lemma at_default_exec_run:
  assumes "at_default c" and "\<forall>e c'. at_default c' \<longrightarrow> at_default (run e c')"
  shows "at_default (fst (snd (exec_run pf run fromFile cmd c)))"
proof -
  have f: "at_default x \<Longrightarrow> at_default (foldl (\<lambda>x e. run e x) x evs)" for x evs
    using assms(2) by (induction evs arbitrary: x) simp_all
  obtain r c' evs where e: "exec pf fromFile cmd c = (r, c', evs)"
    by (cases "exec pf fromFile cmd c") auto
  with at_default_exec[OF assms(1), of pf fromFile cmd] have "at_default c'" by simp
  from f[OF this] e show ?thesis by (simp add: exec_run_def)
qed

lemma at_default_exec_all_run:
  assumes "\<forall>e c'. at_default c' \<longrightarrow> at_default (run e c')"
  shows "at_default c \<Longrightarrow> at_default (fst (exec_all_run pf run cmds c))"
proof (induction cmds arbitrary: c)
  case Nil
  then show ?case by simp
next
  case (Cons x cmds)
  obtain fromFile cmd where x: "x = (fromFile, cmd)" by (cases x)
  obtain r c' evs where e: "exec_run pf run fromFile cmd c = (r, c', evs)"
    by (cases "exec_run pf run fromFile cmd c") auto
  have "at_default c'"
    using at_default_exec_run[OF Cons.prems assms, of pf fromFile cmd] e by simp
  from Cons.IH[OF this] x e show ?case
    by (cases "exec_all_run pf run cmds c'") simp
qed


text \<open>
  Claim C1. Let \<open>cv\<close> be a variable that \<open>NewConVar\<close> made with \<open>isFunc\<close> set. It
  starts at its default value. \<open>write\<close> never mutates it, and invokes the callback
  exactly when its three checks pass, once, with the default value and the supplied
  value, the variable holding the default; the \<open>Set\<close> wrappers do so with the value
  they were given (\<open>SetBool\<close>: 1 or 0) when the kind fits, and return the error
  without a callback when it does not. \<open>Reset\<close> leaves it as it is. \<open>exec\<close> on its
  name skips it when the line comes from a file; otherwise, when the text parses,
  \<open>exec\<close> invokes the callback once with the default value and the parsed value,
  returns the variable unchanged, and the console is what the callback leaves.
  Whatever the callbacks do, as long as they keep the command variables at their
  defaults (every operation of the library does), all command variables of the
  registry hold their defaults after registering \<open>cv\<close>, after \<open>ResetAllVar\<close> and
  after any sequence of \<open>exec\<close> calls.
\<close>

theorem command_value_stays_default:
  assumes "NewConVar name vt True desc dflt = Inr cv"
  shows "isFunc cv \<and> valCur cv = dflt \<and> valDefault cv = dflt
     \<and> (fst (cv_write cv k v argc) = None) = (v \<noteq> Nil \<and> typeKind v = Some k \<and> vt = k)
     \<and> snd (cv_write cv k v argc) =
          (cv, if v \<noteq> Nil \<and> typeKind v = Some k \<and> vt = k then [valSet cv dflt v] else [])
     \<and> SetBool cv b =
          (if vt = KInt then None else Some (VarBadType (varName cv) KInt), cv,
           if vt = KInt then [valSet cv dflt (GoInt (if b then 1 else 0))] else [])
     \<and> SetInt cv i =
          (if vt = KInt then None else Some (VarBadType (varName cv) KInt), cv,
           if vt = KInt then [valSet cv dflt (GoInt i)] else [])
     \<and> SetFloat64 cv f =
          (if vt = KFloat64 then None else Some (VarBadType (varName cv) KFloat64), cv,
           if vt = KFloat64 then [valSet cv dflt (GoFloat64 f)] else [])
     \<and> SetString cv s =
          (if vt = KString then None else Some (VarBadType (varName cv) KString), cv,
           if vt = KString then [valSet cv dflt (GoString s)] else [])
     \<and> Reset cv = cv
     \<and> (map_of (variables c) n = Some cv \<and> Fields (TrimSpace (ToLower cmd)) = n # args
          \<and> n \<noteq> ''#'' \<longrightarrow>
          exec_run pf run True cmd c = (Inr None, c, [])
          \<and> exec_run pf run False cmd c =
              (case parse_value pf vt
                      (if args = [] then ''0''
                       else TrimSpace (drop (length n) (TrimSpace (ToLower cmd))))
                      (TrimSpace (drop (length n) (TrimSpace (ToLower cmd)))) of
                 None \<Rightarrow>
                   (Inl (BadStringConversion
                          (if args = [] then ''0''
                           else TrimSpace (drop (length n) (TrimSpace (ToLower cmd)))) vt),
                    c, [])
               | Some x \<Rightarrow> (Inr (Some cv), run (valSet cv dflt x) c, [valSet cv dflt x])))
     \<and> (at_default c \<and> (\<forall>e c'. at_default c' \<longrightarrow> at_default (run e c')) \<longrightarrow>
          at_default (RegConVar c cv) \<and> at_default (ResetAllVar c)
          \<and> at_default (fst (exec_all_run pf run cmds c)))"
proof -
  note new = NewConVar_command[OF assms]
  have a: "isFunc cv \<and> valCur cv = dflt \<and> valDefault cv = dflt"
    using new by simp
  have w1: "(fst (cv_write cv k' v' n') = None) = (v' \<noteq> Nil \<and> typeKind v' = Some k' \<and> vt = k')"
    for k' v' n'
    using new(4) by (simp add: cv_write_passes)
  have w2: "snd (cv_write cv k' v' n') =
          (cv, if v' \<noteq> Nil \<and> typeKind v' = Some k' \<and> vt = k' then [valSet cv dflt v'] else [])"
    for k' v' n'
    using cv_write_command[OF new(1), of k' v' n'] new by simp
  have w3: "cv_write cv k' v' n' =
      (if vt = k' then None else Some (VarBadType (varName cv) k'), cv,
       if vt = k' then [valSet cv dflt v'] else [])"
    if "typeKind v' = Some k'" for k' v' n'
    using that new by (auto simp: cv_write_def)
  have sb: "SetBool cv b =
          (if vt = KInt then None else Some (VarBadType (varName cv) KInt), cv,
           if vt = KInt then [valSet cv dflt (GoInt (if b then 1 else 0))] else [])"
    using w3[of "GoInt 1" KInt 2] w3[of "GoInt 0" KInt 2]
    by (simp add: SetBool_def)
  have si: "SetInt cv i =
          (if vt = KInt then None else Some (VarBadType (varName cv) KInt), cv,
           if vt = KInt then [valSet cv dflt (GoInt i)] else [])"
    using w3[of "GoInt i" KInt 2] by (simp add: SetInt_def)
  have sf: "SetFloat64 cv f =
          (if vt = KFloat64 then None else Some (VarBadType (varName cv) KFloat64), cv,
           if vt = KFloat64 then [valSet cv dflt (GoFloat64 f)] else [])"
    using w3[of "GoFloat64 f" KFloat64 2] by (simp add: SetFloat64_def)
  have ss: "SetString cv s =
          (if vt = KString then None else Some (VarBadType (varName cv) KString), cv,
           if vt = KString then [valSet cv dflt (GoString s)] else [])"
    using w3[of "GoString s" KString 2] by (simp add: SetString_def)
  have rs: "Reset cv = cv"
    using new by (simp add: Reset_def)
  let ?rest = "TrimSpace (drop (length n) (TrimSpace (ToLower cmd)))"
  let ?valStr = "if args = [] then ''0'' else ?rest"
  have ex: "map_of (variables c) n = Some cv \<and> Fields (TrimSpace (ToLower cmd)) = n # args
          \<and> n \<noteq> ''#'' \<longrightarrow>
          exec_run pf run True cmd c = (Inr None, c, [])
          \<and> exec_run pf run False cmd c =
              (case parse_value pf vt ?valStr ?rest of
                 None \<Rightarrow> (Inl (BadStringConversion ?valStr vt), c, [])
               | Some x \<Rightarrow> (Inr (Some cv), run (valSet cv dflt x) c, [valSet cv dflt x]))"
  proof
    assume h: "map_of (variables c) n = Some cv \<and> Fields (TrimSpace (ToLower cmd)) = n # args
          \<and> n \<noteq> ''#''"
    have kinds: "varType cv = KInt \<or> varType cv = KFloat64 \<or> varType cv = KString"
      using new by simp
    from h have m: "map_of (variables c) n = Some cv"
      and tk: "Fields (TrimSpace (ToLower cmd)) = n # args" and hash: "n \<noteq> ''#''"
      by simp_all
    note e = exec_command[OF new(1) kinds m tk hash, of pf]
    have t: "exec_run pf run True cmd c = (Inr None, c, [])"
      using e(1) by (simp add: exec_run_def)
    have f: "exec_run pf run False cmd c =
              (case parse_value pf vt ?valStr ?rest of
                 None \<Rightarrow> (Inl (BadStringConversion ?valStr vt), c, [])
               | Some x \<Rightarrow> (Inr (Some cv), run (valSet cv dflt x) c, [valSet cv dflt x]))"
      using e(2) new by (simp add: exec_run_def split: option.splits)
    from t f show "exec_run pf run True cmd c = (Inr None, c, [])
          \<and> exec_run pf run False cmd c =
              (case parse_value pf vt ?valStr ?rest of
                 None \<Rightarrow> (Inl (BadStringConversion ?valStr vt), c, [])
               | Some x \<Rightarrow> (Inr (Some cv), run (valSet cv dflt x) c, [valSet cv dflt x]))"
      by blast
  qed
  have inv: "at_default c \<and> (\<forall>e c'. at_default c' \<longrightarrow> at_default (run e c')) \<longrightarrow>
          at_default (RegConVar c cv) \<and> at_default (ResetAllVar c)
          \<and> at_default (fst (exec_all_run pf run cmds c))"
  proof
    assume h: "at_default c \<and> (\<forall>e c'. at_default c' \<longrightarrow> at_default (run e c'))"
    then have c: "at_default c" and r: "\<forall>e c'. at_default c' \<longrightarrow> at_default (run e c')"
      by simp_all
    have "isFunc cv \<longrightarrow> valCur cv = valDefault cv"
      using new by simp
    from at_default_RegConVar[OF c this] at_default_ResetAllVar[of c]
      at_default_exec_all_run[OF r c, of pf cmds]
    show "at_default (RegConVar c cv) \<and> at_default (ResetAllVar c)
          \<and> at_default (fst (exec_all_run pf run cmds c))"
      by simp
  qed
  from a w1[of k v argc] w2[of k v argc] sb si sf ss rs ex inv show ?thesis
    by (intro conjI) (simp_all only:)
qed


text \<open>
  The theorem at \<open>var_reset_all\<close>, whose callback calls \<open>ResetAllVar\<close>: written to
  by \<open>SetInt\<close>, \<open>SetBool\<close> and \<open>SetString\<close>, executed from the console (the callback
  runs and puts \<open>cl_width\<close> back from 800 to 640) and from a file, and after three
  commands.
\<close>

theorem command_value_stays_default_witness:
  "NewConVar ''Var_Reset_All'' KInt True ''Resets all convars to their default values.'' (GoInt 0)
     = Inr var_reset_all
   \<and> SetInt var_reset_all 5 =
        (None, var_reset_all,
         [\<lparr>cb_var = ''var_reset_all'', cb_old = GoInt 0, cb_new = GoInt 5, cb_seen = GoInt 0\<rparr>])
   \<and> SetBool var_reset_all True =
        (None, var_reset_all,
         [\<lparr>cb_var = ''var_reset_all'', cb_old = GoInt 0, cb_new = GoInt 1, cb_seen = GoInt 0\<rparr>])
   \<and> SetString var_reset_all ''x'' = (Some (VarBadType ''var_reset_all'' KString), var_reset_all, [])
   \<and> exec_run no_floats demo_callbacks False ''Var_Reset_All 7'' reset_console =
        (Inr (Some var_reset_all), ResetAllVar reset_console,
         [\<lparr>cb_var = ''var_reset_all'', cb_old = GoInt 0, cb_new = GoInt 7, cb_seen = GoInt 0\<rparr>])
   \<and> map_option valCur (map_of (variables reset_console) ''cl_width'') = Some (GoInt 800)
   \<and> map_option valCur (map_of (variables (ResetAllVar reset_console)) ''cl_width'') = Some (GoInt 640)
   \<and> exec_run no_floats demo_callbacks True ''Var_Reset_All 7'' reset_console =
        (Inr None, reset_console, [])
   \<and> at_default reset_console
   \<and> at_default (fst (exec_all_run no_floats demo_callbacks
        [(False, ''var_reset_all 3''), (False, ''con_clear''), (False, ''cl_width 5'')] reset_console))"
proof -
  note con = reset_console_def cl_width_def con_clear_def var_reset_all_def RegConVar_def NewConsole_def
  have new: "NewConVar ''Var_Reset_All'' KInt True ''Resets all convars to their default values.'' (GoInt 0)
     = Inr var_reset_all"
    by (simp add: NewConVar_def var_reset_all_def ToLower_def ToLower_rune_def char_of_eq_iff)
  have vars: "variables reset_console =
      [(''cl_width'', cl_width\<lparr>valCur := GoInt 800\<rparr>), (''con_clear'', con_clear),
       (''var_reset_all'', var_reset_all)]"
    by (simp add: con)
  have m: "map_of (variables reset_console) ''var_reset_all'' = Some var_reset_all"
    by (simp add: vars)
  have tk: "Fields (TrimSpace (ToLower ''Var_Reset_All 7'')) = ''var_reset_all'' # [''7'']"
    by (simp add: text_defs)
  have hash: "''var_reset_all'' \<noteq> ''#''"
    by simp
  have at: "at_default reset_console"
    by (simp add: at_default_def vars) (simp add: cl_width_def con_clear_def var_reset_all_def)
  have run: "\<forall>e c'. at_default c' \<longrightarrow> at_default (demo_callbacks e c')"
    by (simp add: demo_callbacks_def at_default_ResetAllVar at_default_ClearBuffer)
  have names: "varName var_reset_all = ''var_reset_all''"
    by (simp add: var_reset_all_def)
  have cur: "valCur var_reset_all = GoInt 0"
    by (simp add: var_reset_all_def)
  note th = command_value_stays_default[OF new, of KInt "GoInt 5" 2 True 5 0 "''x''"
      reset_console "''var_reset_all''" "''Var_Reset_All 7''" "[''7'']" no_floats demo_callbacks
      "[(False, ''var_reset_all 3''), (False, ''con_clear''), (False, ''cl_width 5'')]"]
  have a: "SetInt var_reset_all 5 =
        (None, var_reset_all,
         [\<lparr>cb_var = ''var_reset_all'', cb_old = GoInt 0, cb_new = GoInt 5, cb_seen = GoInt 0\<rparr>])"
    using th by (simp add: valSet_def names cur)
  have b: "SetBool var_reset_all True =
        (None, var_reset_all,
         [\<lparr>cb_var = ''var_reset_all'', cb_old = GoInt 0, cb_new = GoInt 1, cb_seen = GoInt 0\<rparr>])"
    using th by (simp add: valSet_def names cur)
  have c: "SetString var_reset_all ''x'' = (Some (VarBadType ''var_reset_all'' KString), var_reset_all, [])"
    using th by (simp add: names)
  from th m tk hash have
    "exec_run no_floats demo_callbacks True ''Var_Reset_All 7'' reset_console = (Inr None, reset_console, [])
     \<and> exec_run no_floats demo_callbacks False ''Var_Reset_All 7'' reset_console =
              (case parse_value no_floats KInt
                      (if [''7''] = [] then ''0''
                       else TrimSpace (drop (length ''var_reset_all'') (TrimSpace (ToLower ''Var_Reset_All 7''))))
                      (TrimSpace (drop (length ''var_reset_all'') (TrimSpace (ToLower ''Var_Reset_All 7'')))) of
                 None \<Rightarrow>
                   (Inl (BadStringConversion
                          (if [''7''] = [] then ''0''
                           else TrimSpace (drop (length ''var_reset_all'') (TrimSpace (ToLower ''Var_Reset_All 7'')))) KInt),
                    reset_console, [])
               | Some x \<Rightarrow> (Inr (Some var_reset_all),
                    demo_callbacks (valSet var_reset_all (GoInt 0) x) reset_console,
                    [valSet var_reset_all (GoInt 0) x]))"
    by blast
  then have d: "exec_run no_floats demo_callbacks True ''Var_Reset_All 7'' reset_console = (Inr None, reset_console, [])"
    and e: "exec_run no_floats demo_callbacks False ''Var_Reset_All 7'' reset_console =
        (Inr (Some var_reset_all), ResetAllVar reset_console,
         [\<lparr>cb_var = ''var_reset_all'', cb_old = GoInt 0, cb_new = GoInt 7, cb_seen = GoInt 0\<rparr>])"
    by (simp_all add: text_defs parse_value_def valSet_def demo_callbacks_def names cur)
  have f: "map_option valCur (map_of (variables reset_console) ''cl_width'') = Some (GoInt 800)"
    and g: "map_option valCur (map_of (variables (ResetAllVar reset_console)) ''cl_width'') = Some (GoInt 640)"
    by (simp_all add: vars ResetAllVar_def Reset_def cl_width_def)
  from th at run have h: "at_default (fst (exec_all_run no_floats demo_callbacks
        [(False, ''var_reset_all 3''), (False, ''con_clear''), (False, ''cl_width 5'')] reset_console))"
    by blast
  from new a b c e f g d at h show ?thesis
    by (intro conjI) (simp_all only:)
qed


section \<open>A line too long for the scanner\<close>

lemma utf8_len_append: "utf8_len (a @ b) = utf8_len a + utf8_len b"
  by (simp add: utf8_len_def)

lemma utf8_len_replicate: "(of_char ch :: nat) < 128 \<Longrightarrow> utf8_len (replicate n ch) = n"
  by (induction n) (simp_all add: utf8_len_def)

lemma long_value_len: "utf8_len long_value = 65536"
proof -
  have "(of_char (CHR ''a'') :: nat) < 128" by simp
  from utf8_len_replicate[OF this, of 65536] show ?thesis
    by (simp only: long_value_def)
qed

lemma long_value_one_line: "CHR 0x0A \<notin> set long_value"
  by (simp add: long_value_def)

lemma long_text_lines:
  "cut_lines long_text [] = [''cl_width 700'', ''cl_name '' @ long_value, ''cl_width 900'']"
proof -
  have n1: "CHR 0x0A \<notin> set ''cl_width 700''" and n3: "CHR 0x0A \<notin> set ''cl_width 900''"
    by simp_all
  have n2: "CHR 0x0A \<notin> set (''cl_name '' @ long_value)"
    using long_value_one_line by simp
  let ?r3 = "''cl_width 900'' @ CHR 0x0A # []"
  let ?r2 = "(''cl_name '' @ long_value) @ CHR 0x0A # ?r3"
  have eq: "long_text = ''cl_width 700'' @ CHR 0x0A # ?r2"
    by (simp add: long_text_def)
  have s3: "cut_lines ?r3 [] = [''cl_width 900'']"
    by (simp only: cut_lines_line[OF n3] cut_lines.simps append_Nil if_True refl)
  have s2: "cut_lines ?r2 [] = [''cl_name '' @ long_value, ''cl_width 900'']"
    by (simp only: cut_lines_line[OF n2] s3 append_Nil)
  have "cut_lines (''cl_width 700'' @ CHR 0x0A # ?r2) [] =
      [''cl_width 700'', ''cl_name '' @ long_value, ''cl_width 900'']"
    by (simp only: cut_lines_line[OF n1] s2 append_Nil)
  then show ?thesis
    by (simp only: eq)
qed

lemma long_text_scanned: "scan_lines long_text = [''cl_width 700'']"
proof -
  have a: "utf8_len ''cl_width 700'' < MaxScanTokenSize"
    by (simp add: utf8_len_def MaxScanTokenSize_def)
  have "utf8_len (''cl_name '' @ long_value) = 8 + 65536"
    by (simp only: utf8_len_append long_value_len) (simp add: utf8_len_def)
  then have b: "\<not> utf8_len (''cl_name '' @ long_value) < MaxScanTokenSize"
    by (simp add: MaxScanTokenSize_def)
  have "takeWhile (\<lambda>l. utf8_len l < MaxScanTokenSize)
          [''cl_width 700'', ''cl_name '' @ long_value, ''cl_width 900''] = [''cl_width 700'']"
    using a b by (simp del: append.simps)
  then show ?thesis
    by (simp only: scan_lines_def long_text_lines) (simp add: dropCR_def)
qed

text \<open>
  Claim C5. \<open>Load\<close> should pass each line of the file to \<open>exec\<close>, and no failure
  on a line should keep the lines after it from being executed. A line of 65536
  bytes or more does: the scanner stops there, \<open>Load\<close> never reads its error, the
  loop ends and \<open>Load\<close> returns \<open>nil\<close>. Of the three lines of the file below, the
  second too long, only the first is executed: \<open>cl_width\<close> is 700 afterwards, not the
  900 of the third line, which \<open>exec\<close> accepts when it gets it.
\<close>

theorem Load_stops_at_long_line:
  "files long_fs ''convars.ini'' = Some long_text
   \<and> cut_lines long_text [] = [''cl_width 700'', ''cl_name '' @ long_value, ''cl_width 900'']
   \<and> utf8_len (''cl_name '' @ long_value) = 65544
   \<and> scan_lines long_text = [''cl_width 700'']
   \<and> fst (Load no_floats saved_console ''convars.ini'' long_fs) = None
   \<and> map_option valCur (map_of (variables (fst (snd
        (Load no_floats saved_console ''convars.ini'' long_fs)))) ''cl_width'') = Some (GoInt 700)
   \<and> map_option valCur (map_of (variables (fst (snd
        (exec no_floats True ''cl_width 900'' saved_console)))) ''cl_width'') = Some (GoInt 900)"
proof -
  note con = saved_console_def cl_width_def cl_name_def con_clear_def RegConVar_def NewConsole_def
  have f: "files long_fs ''convars.ini'' = Some long_text"
    by (simp add: long_fs_def)
  have len: "utf8_len (''cl_name '' @ long_value) = 65544"
    by (simp only: utf8_len_append long_value_len) (simp add: utf8_len_def)
  have ld: "Load no_floats saved_console ''convars.ini'' long_fs =
      (None, exec_lines no_floats [''cl_width 700''] saved_console)"
    by (simp add: Load_def f long_text_scanned split: prod.splits)
  have e7: "exec no_floats True ''cl_width 700'' saved_console =
      (Inr (Some (cl_width\<lparr>valCur := GoInt 700\<rparr>)),
       saved_console\<lparr>variables := AList.update ''cl_width'' (cl_width\<lparr>valCur := GoInt 700\<rparr>)
          (variables saved_console)\<rparr>,
       [\<lparr>cb_var = ''cl_width'', cb_old = GoInt 800, cb_new = GoInt 700, cb_seen = GoInt 700\<rparr>])"
    by (simp add: exec_def exec_write_def cv_write_def valSet_def parse_value_def text_defs con Let_def)
  have e9: "map_option valCur (map_of (variables (fst (snd
        (exec no_floats True ''cl_width 900'' saved_console)))) ''cl_width'') = Some (GoInt 900)"
    by (simp add: exec_def exec_write_def cv_write_def valSet_def parse_value_def text_defs con Let_def)
  have a: "fst (Load no_floats saved_console ''convars.ini'' long_fs) = None"
    using ld by simp
  have b: "map_option valCur (map_of (variables (fst (snd
        (Load no_floats saved_console ''convars.ini'' long_fs)))) ''cl_width'') = Some (GoInt 700)"
    using ld e7 by (simp add: AList.update_conv')
  from f long_text_lines len long_text_scanned a b e9 show ?thesis
    by (intro conjI) (simp_all only:)
qed

end
